theory Spec2Isabelle
  imports Complex_Main "HOL-Library.DAList" "HOL-Library.Sublist"
begin

section \<open>The PocketBase client: request dispatch (pocketbase/client.py)\<close>

text \<open>
  A shallow embedding of class \<open>Client\<close>. Python objects that can be shared between the
  caller and the dispatcher (dicts, service instances) live in a store and are referred to
  by address; everything else is a value.
\<close>

subsection \<open>Python values\<close>

type_synonym addr = nat
type_synonym bytes = string

text \<open>
  Modelled from the spec: class \<open>FileUpload\<close> (pocketbase/models) is not part of the source
  at hand. The spec has it wrap the raw bytes of one upload, and the wire contract has a
  multipart request carry one file part per file field; \<open>get\<close>, called by the dispatcher
  with the field name, yields that part.
\<close>

datatype FileUpload = FileUpload bytes

type_synonym file_part = "string \<times> FileUpload"

definition get :: "FileUpload \<Rightarrow> string \<Rightarrow> file_part list" where
  "get v k = [(k, v)]"

text \<open>
  The values a request configuration holds (\<open>Any\<close> in the source): \<open>PDict a\<close> is a
  reference to the dict object at address \<open>a\<close>. Floating point numbers are left out.
\<close>

datatype pyval =
    PNone
  | PBool bool
  | PInt int
  | PStr string
  | PList "pyval list"
  | PDict addr
  | PFile FileUpload

text \<open>A dict: insertion ordered, keys distinct.\<close>

type_synonym pydict = "(string, pyval) alist"

text \<open>\<open>d.items()\<close>, \<open>k in d\<close>, \<open>d.get(k, default)\<close>, \<open>d[k] = v\<close>, \<open>d.update(e)\<close>.\<close>

definition items :: "pydict \<Rightarrow> (string \<times> pyval) list" where
  "items d = DAList.impl_of d"

definition has_key :: "pydict \<Rightarrow> string \<Rightarrow> bool" where
  "has_key d k = (DAList.lookup d k \<noteq> None)"

definition dict_get :: "pydict \<Rightarrow> string \<Rightarrow> pyval \<Rightarrow> pyval" where
  "dict_get d k dflt = (case DAList.lookup d k of None \<Rightarrow> dflt | Some v \<Rightarrow> v)"

definition setitem :: "pydict \<Rightarrow> string \<Rightarrow> pyval \<Rightarrow> pydict" where
  "setitem d k v = DAList.update k v d"

definition dict_update :: "pydict \<Rightarrow> pydict \<Rightarrow> pydict" where
  "dict_update d e = fold (\<lambda>(k, v) acc. setitem acc k v) (items e) d"

text \<open>The dict display \<open>{k1: v1, ...}\<close>.\<close>

definition dict_of :: "(string \<times> pyval) list \<Rightarrow> pydict" where
  "dict_of kvs = fold (\<lambda>(k, v) acc. setitem acc k v) kvs DAList.empty"

text \<open>
  The payload \<open>response.json()\<close> builds: a tree of new objects, held by value.
  \<open>JNone\<close> is Python's \<open>None\<close>, which stands both for JSON \<open>null\<close> and for no payload.
\<close>

datatype jval =
    JNone
  | JBool bool
  | JInt int
  | JStr string
  | JList "jval list"
  | JDict "(string \<times> jval) list"

subsection \<open>Exceptions\<close>

text \<open>
  An object raised by an external call: whether it is an instance of \<open>Exception\<close> (an
  \<open>except Exception\<close> clause lets anything else pass) and what \<open>str\<close> gives for it.
\<close>

datatype raised = Raised (is_Exception: bool) (str_of: string)

text \<open>
  Modelled from the spec: class \<open>ClientResponseError\<close> (pocketbase/errors) is not part of
  the source at hand. The spec has it carry a message, an optional request URL, an optional
  status code, an optional parsed payload and an optional wrapped original error; a keyword
  the raise site does not pass is absent.
\<close>

record ClientResponseError =
  err_message :: string
  err_url :: "string option"
  err_status :: "int option"
  err_data :: jval
  original_error :: "raised option"

datatype error =
    ClientResponseErr ClientResponseError
  | Uncaught raised
  | TypeError
  | AttributeError
  | KeyError

subsection \<open>The HTTP engine\<close>

record request =
  req_method :: pyval
  req_url :: string
  req_params :: pyval
  req_headers :: pyval
  req_json :: pyval
  req_data :: "pydict option"
  req_files :: "file_part list option"
  req_timeout :: real

text \<open>
  An \<open>httpx.Response\<close>: \<open>url\<close> is \<open>str(response.url)\<close>, \<open>json\<close> is what the call
  \<open>response.json()\<close> does, raising when the body does not decode.
\<close>

record Response =
  status_code :: int
  url :: string
  content :: bytes
  json :: "raised + jval"

type_synonym heap = "addr \<Rightarrow> pydict"

type_synonym engine = "heap \<Rightarrow> request \<Rightarrow> raised + Response"

subsection \<open>The client and the store\<close>

text \<open>
  Modelled from the spec: the auth store (pocketbase/stores) is not part of the source at
  hand. The spec has it hold an optional token string and an optional identity record.
\<close>

record AuthStore =
  token :: "string option"
  identity :: pyval

text \<open>
  Modelled from the spec: class \<open>RecordService\<close> (pocketbase/services) is not part of the
  source at hand. The spec has an instance bound to the owning client and to the collection
  identifier it was built with.
\<close>

record RecordService =
  collection_id_or_name :: string

text \<open>
  The attributes of \<open>Client\<close> the methods below read or write; the fixed service handles
  (\<open>admins\<close>, \<open>files\<close>, ...) are left out. \<open>record_service\<close> maps a collection identifier to
  the address of its service instance.
\<close>

record Client =
  base_url :: string
  lang :: string
  auth_store :: AuthStore
  timeout :: real
  http_client :: engine
  auto_snake_case :: bool
  record_service :: "string \<rightharpoonup> addr"

text \<open>
  The state a call runs in: the client, the dict objects, the service instances, the next
  unused address, and the requests handed to the HTTP engine so far.
\<close>

record world =
  client :: Client
  cells :: heap
  instances :: "addr \<rightharpoonup> RecordService"
  next_free :: addr
  sent :: "request list"

subsection \<open>\<open>build_url\<close>\<close>

definition endswith :: "string \<Rightarrow> string \<Rightarrow> bool" where
  "endswith s x = suffix x s"

definition startswith :: "string \<Rightarrow> string \<Rightarrow> bool" where
  "startswith s x = prefix x s"

definition build_url :: "Client \<Rightarrow> string \<Rightarrow> string" where
  "build_url self path =
     (let url = base_url self;
          url = (if \<not> endswith (base_url self) ''/'' then url @ ''/'' else url);
          path = (if startswith path ''/'' then drop 1 path else path)
      in url @ path)"

subsection \<open>\<open>_send\<close>\<close>

text \<open>Truth value of \<open>self.auth_store.token\<close>: \<open>None\<close> and the empty string are false.\<close>

definition truthy :: "string option \<Rightarrow> bool" where
  "truthy t = (case t of None \<Rightarrow> False | Some s \<Rightarrow> s \<noteq> [])"

text \<open>The subscript \<open>d[k]\<close>.\<close>

definition getitem :: "pydict \<Rightarrow> string \<Rightarrow> error + pyval" where
  "getitem d k = (case DAList.lookup d k of None \<Rightarrow> Inl KeyError | Some v \<Rightarrow> Inr v)"

text \<open>
  The test \<open>k in v\<close> for a string \<open>k\<close>: key membership in a dict, substring of a string,
  element of a list; the other values are not containers.
\<close>

fun contains :: "heap \<Rightarrow> pyval \<Rightarrow> string \<Rightarrow> error + bool" where
  "contains h (PDict a) k = Inr (has_key (h a) k)"
| "contains h (PStr s) k = Inr (sublist k s)"
| "contains h (PList xs) k = Inr (PStr k \<in> set xs)"
| "contains h v k = Inl TypeError"

text \<open>A new dict object, at an address not in use.\<close>

definition new_dict :: "world \<Rightarrow> pydict \<Rightarrow> addr \<times> world" where
  "new_dict w d =
     (next_free w, w\<lparr>cells := (cells w)(next_free w := d), next_free := Suc (next_free w)\<rparr>)"

text \<open>
  Lines 54 to 56, the condition \<open>token and ("headers" not in config or "Authorization" not
  in config["headers"])\<close>, evaluated left to right.
\<close>

definition can_add_authorization :: "world \<Rightarrow> pydict \<Rightarrow> error + bool" where
  "can_add_authorization w config =
     (if \<not> truthy (token (auth_store (client w))) then Inr False
      else if \<not> has_key config ''headers'' then Inr True
      else (case getitem config ''headers'' of
              Inl e \<Rightarrow> Inl e
            | Inr hv \<Rightarrow>
                (case contains (cells w) hv ''Authorization'' of
                   Inl e \<Rightarrow> Inl e
                 | Inr b \<Rightarrow> Inr (\<not> b))))"

text \<open>The token as a value: \<open>None\<close> or a \<open>str\<close>.\<close>

definition token_value :: "string option \<Rightarrow> pyval" where
  "token_value t = (case t of None \<Rightarrow> PNone | Some s \<Rightarrow> PStr s)"

text \<open>
  Line 58, \<open>v.update({"Authorization": token})\<close>: on a dict it writes to the object
  itself; no other value of the model has the method.
\<close>

definition update_headers :: "world \<Rightarrow> pyval \<Rightarrow> world \<times> (error + unit)" where
  "update_headers w hv =
     (case hv of
        PDict a \<Rightarrow>
          (w\<lparr>cells := (cells w)
                (a := dict_update (cells w a)
                        (dict_of [(''Authorization'', token_value (token (auth_store (client w))))]))\<rparr>,
           Inr ())
      | _ \<Rightarrow> (w, Inl AttributeError))"

text \<open>
  Lines 54 to 58. \<open>config\<close> is the dispatcher's own copy of the request configuration;
  the headers value it holds is the caller's object when the caller gave one, and a new
  dict otherwise.
\<close>

definition authorize :: "world \<Rightarrow> pydict \<Rightarrow> world \<times> (error + pydict)" where
  "authorize w config =
     (case can_add_authorization w config of
        Inl e \<Rightarrow> (w, Inl e)
      | Inr False \<Rightarrow> (w, Inr config)
      | Inr True \<Rightarrow>
          (let (hv, w1) = (if has_key config ''headers'' then (dict_get config ''headers'' PNone, w)
                           else (let (a, w1) = new_dict w DAList.empty in (PDict a, w1)));
               config = setitem config ''headers'' hv
           in case getitem config ''headers'' of
                Inl e \<Rightarrow> (w1, Inl e)
              | Inr hv \<Rightarrow>
                  (case update_headers w1 hv of
                     (w2, Inl e) \<Rightarrow> (w2, Inl e)
                   | (w2, Inr u) \<Rightarrow> (w2, Inr config))))"

text \<open>
  Lines 67 to 73, the loop over \<open>body.items()\<close>: a \<open>FileUpload\<close> value adds its parts to
  \<open>files\<close>, any other value goes to \<open>data\<close>.
\<close>

fun split_body ::
  "(string \<times> pyval) list \<Rightarrow> pydict \<Rightarrow> file_part list \<Rightarrow> pydict \<times> file_part list" where
  "split_body [] data files = (data, files)"
| "split_body ((k, v) # kvs) data files =
     (case v of
        PFile f \<Rightarrow> split_body kvs data (files @ get f k)
      | _ \<Rightarrow> split_body kvs (setitem data k v) files)"

text \<open>
  Lines 65 to 80, the choice of encoding: with file parts the JSON body is dropped, without
  them the multipart arguments are. \<open>data\<close> is a dict of the call's own, so the request
  holds it as a value.
\<close>

definition encode_body :: "heap \<Rightarrow> pyval \<Rightarrow> pyval \<times> pydict option \<times> file_part list option" where
  "encode_body h body =
     (let (data, files) =
            split_body (case body of PDict b \<Rightarrow> items (h b) | _ \<Rightarrow> []) DAList.empty []
      in if length files > 0 then (PNone, Some data, Some files) else (body, None, None))"

text \<open>Lines 51 to 80: everything up to the call of the engine.\<close>

definition prepare :: "world \<Rightarrow> string \<Rightarrow> addr \<Rightarrow> world \<times> (error + request)" where
  "prepare w path req_config =
     (let config = dict_update (dict_of [(''method'', PStr ''GET'')]) (cells w req_config)
      in case authorize w config of
           (w1, Inl e) \<Rightarrow> (w1, Inl e)
         | (w1, Inr config) \<Rightarrow>
             (let url = build_url (client w1) path;
                  method = dict_get config ''method'' (PStr ''GET'');
                  params = dict_get config ''params'' PNone;
                  headers = dict_get config ''headers'' PNone;
                  body = dict_get config ''body'' PNone;
                  (body, data, files) = encode_body (cells w1) body
              in (w1, Inr \<lparr>req_method = method, req_url = url, req_params = params,
                           req_headers = headers, req_json = body, req_data = data,
                           req_files = files, req_timeout = timeout (client w1)\<rparr>)))"

text \<open>
  Lines 81 to 97: the call of the engine, recorded in \<open>sent\<close>. An \<open>Exception\<close> it raises
  comes back wrapped; \<open>ClientResponseError\<close> is given the message and \<open>original_error\<close>
  only.
\<close>

definition priv_send :: "world \<Rightarrow> string \<Rightarrow> addr \<Rightarrow> world \<times> (error + Response)" where
  "priv_send w path req_config =
     (case prepare w path req_config of
        (w1, Inl e) \<Rightarrow> (w1, Inl e)
      | (w1, Inr rq) \<Rightarrow>
          (let w2 = w1\<lparr>sent := sent w1 @ [rq]\<rparr>
           in case http_client (client w1) (cells w1) rq of
                Inl e \<Rightarrow>
                  (if is_Exception e
                   then (w2, Inl (ClientResponseErr
                          \<lparr>err_message = ''General request error. Original error: '' @ str_of e,
                           err_url = None, err_status = None, err_data = JNone,
                           original_error = Some e\<rparr>))
                   else (w2, Inl (Uncaught e)))
              | Inr response \<Rightarrow> (w2, Inr response)))"

subsection \<open>\<open>send_raw\<close> and \<open>send\<close>\<close>

definition send_raw :: "world \<Rightarrow> string \<Rightarrow> addr \<Rightarrow> world \<times> (error + bytes)" where
  "send_raw w path req_config =
     (case priv_send w path req_config of
        (w1, Inl e) \<Rightarrow> (w1, Inl e)
      | (w1, Inr response) \<Rightarrow> (w1, Inr (content response)))"

text \<open>\<open>str\<close> of an integer, for the f-string of the message.\<close>

definition digit :: "nat \<Rightarrow> char" where
  "digit n = ''0123456789'' ! n"

fun str_nat :: "nat \<Rightarrow> string" where
  "str_nat n = (if n < 10 then [digit n] else str_nat (n div 10) @ [digit (n mod 10)])"

definition str_int :: "int \<Rightarrow> string" where
  "str_int i = (if i < 0 then CHR ''-'' # str_nat (nat (- i)) else str_nat (nat i))"

definition send :: "world \<Rightarrow> string \<Rightarrow> addr \<Rightarrow> world \<times> (error + jval)" where
  "send w path req_config =
     (case priv_send w path req_config of
        (w1, Inl e) \<Rightarrow> (w1, Inl e)
      | (w1, Inr response) \<Rightarrow>
          (case (case json response of
                   Inl e \<Rightarrow> (if is_Exception e then Inr JNone else Inl (Uncaught e))
                 | Inr d \<Rightarrow> Inr d) of
             Inl e \<Rightarrow> (w1, Inl e)
           | Inr data \<Rightarrow>
               (if status_code response \<ge> 400
                then (w1, Inl (ClientResponseErr
                       \<lparr>err_message = ''Response error. Status code:'' @ str_int (status_code response),
                        err_url = Some (url response),
                        err_status = Some (status_code response),
                        err_data = data,
                        original_error = None\<rparr>))
                else (w1, Inr data))))"

subsection \<open>\<open>collection\<close>\<close>

text \<open>The constructor call \<open>RecordService(self, id_or_name)\<close>: a new instance.\<close>

definition new_RecordService :: "world \<Rightarrow> string \<Rightarrow> addr \<times> world" where
  "new_RecordService w id_or_name =
     (next_free w,
      w\<lparr>instances := (instances w)(next_free w \<mapsto> \<lparr>collection_id_or_name = id_or_name\<rparr>),
        next_free := Suc (next_free w)\<rparr>)"

definition collection :: "world \<Rightarrow> string \<Rightarrow> world \<times> (error + addr)" where
  "collection w id_or_name =
     (let w1 = (if record_service (client w) id_or_name = None
                then (let (a, w') = new_RecordService w id_or_name
                      in w'\<lparr>client := (client w')
                              \<lparr>record_service := (record_service (client w'))(id_or_name \<mapsto> a)\<rparr>\<rparr>)
                else w)
      in (w1, case record_service (client w1) id_or_name of
                None \<Rightarrow> Inl KeyError
              | Some a \<Rightarrow> Inr a))"

section \<open>What the specification speaks of\<close>

text \<open>\<open>isinstance(v, FileUpload)\<close>.\<close>

definition is_file :: "pyval \<Rightarrow> bool" where
  "is_file v = (case v of PFile f \<Rightarrow> True | _ \<Rightarrow> False)"

text \<open>The plain fields of a body, and the file parts its upload fields give, in order.\<close>

definition plain_fields :: "pydict \<Rightarrow> (string \<times> pyval) list" where
  "plain_fields d = filter (\<lambda>(k, v). \<not> is_file v) (items d)"

definition file_parts :: "pydict \<Rightarrow> file_part list" where
  "file_parts d = concat (map (\<lambda>(k, v). case v of PFile f \<Rightarrow> get f k | _ \<Rightarrow> []) (items d))"

text \<open>
  The URL builder as the specification words it: base and path joined by one slash, a
  slash the base ends with or the path starts with not counted twice.
\<close>

definition without_trailing_slash :: "string \<Rightarrow> string" where
  "without_trailing_slash s = (if s \<noteq> [] \<and> last s = CHR ''/'' then butlast s else s)"

definition without_leading_slash :: "string \<Rightarrow> string" where
  "without_leading_slash s = (case s of [] \<Rightarrow> [] | c # cs \<Rightarrow> if c = CHR ''/'' then cs else s)"

definition join_url :: "string \<Rightarrow> string \<Rightarrow> string" where
  "join_url base path = without_trailing_slash base @ ''/'' @ without_leading_slash path"

text \<open>The headers of a request configuration, when given, are a mapping.\<close>

definition headers_given_as_mapping :: "world \<Rightarrow> addr \<Rightarrow> bool" where
  "headers_given_as_mapping w r =
     (case DAList.lookup (cells w r) ''headers'' of
        None \<Rightarrow> True
      | Some (PDict a) \<Rightarrow> True
      | Some _ \<Rightarrow> False)"

text \<open>
  The invariant of the service cache: what is cached under an identifier is the address of
  an allocated \<open>RecordService\<close> instance bound to that identifier. It holds when
  \<open>__init__\<close> has set \<open>record_service\<close> to the empty dict, and every method keeps it.
\<close>

definition cache_ok :: "world \<Rightarrow> bool" where
  "cache_ok w =
     (\<forall>i a. record_service (client w) i = Some a \<longrightarrow>
        a < next_free w \<and> instances w a = Some \<lparr>collection_id_or_name = i\<rparr>)"

text \<open>
  The life of a client: a run of calls of its methods, one after the other. \<open>build_url\<close>
  has no effect and is not listed.
\<close>

datatype call =
    Collection string
  | Send string addr
  | SendRaw string addr
  | PrivSend string addr

fun step :: "world \<Rightarrow> call \<Rightarrow> world" where
  "step w (Collection i) = fst (collection w i)"
| "step w (Send path r) = fst (send w path r)"
| "step w (SendRaw path r) = fst (send_raw w path r)"
| "step w (PrivSend path r) = fst (priv_send w path r)"

definition run :: "world \<Rightarrow> call list \<Rightarrow> world" where
  "run w cs = fold (\<lambda>c w. step w c) cs w"

section \<open>A client to run\<close>

definition quoted :: "string \<Rightarrow> string" where
  "quoted s = CHR 0x22 # s @ [CHR 0x22]"

text \<open>
  An engine that answers by URL: no connection for \<open>/down\<close>, 404 with a JSON body for
  \<open>/missing\<close>, 200 and 502 with bodies that are not JSON for \<open>/text\<close> and \<open>/broken\<close>,
  and 200 with a JSON body for everything else.
\<close>

definition example_engine :: engine where
  "example_engine h rq =
     (if req_url rq = ''http://h/down'' then Inl (Raised True ''connection refused'')
      else if req_url rq = ''http://h/missing''
        then Inr \<lparr>status_code = 404, url = req_url rq,
                  content = ''{'' @ quoted ''message'' @ '':'' @ quoted ''not found'' @ ''}'',
                  json = Inr (JDict [(''message'', JStr ''not found'')])\<rparr>
      else if req_url rq = ''http://h/text''
        then Inr \<lparr>status_code = 200, url = req_url rq, content = ''hello'',
                  json = Inl (Raised True ''Expecting value'')\<rparr>
      else if req_url rq = ''http://h/broken''
        then Inr \<lparr>status_code = 502, url = req_url rq, content = ''Bad Gateway'',
                  json = Inl (Raised True ''Expecting value'')\<rparr>
      else Inr \<lparr>status_code = 200, url = req_url rq,
                content = ''{'' @ quoted ''id'' @ '':'' @ quoted ''1'' @ ''}'',
                json = Inr (JDict [(''id'', JStr ''1'')])\<rparr>)"

definition example_client :: "string option \<Rightarrow> Client" where
  "example_client t =
     \<lparr>base_url = ''http://h'', lang = ''en-US'',
      auth_store = \<lparr>token = t, identity = PNone\<rparr>,
      timeout = 120, http_client = example_engine, auto_snake_case = True,
      record_service = Map.empty\<rparr>"

text \<open>
  The caller's objects: at 10 a configuration with headers (at 11) and a body with an
  upload (at 12); at 13 an empty configuration; at 14 a configuration whose headers (at 15)
  have an \<open>Authorization\<close> entry and whose body (at 16) has plain fields only.
\<close>

definition example_cells :: heap where
  "example_cells =
     (\<lambda>a. DAList.empty)
       (10 := dict_of [(''method'', PStr ''POST''), (''headers'', PDict 11), (''body'', PDict 12)],
        11 := dict_of [(''X-Test'', PStr ''1'')],
        12 := dict_of [(''title'', PStr ''t''), (''doc'', PFile (FileUpload ''%PDF'')),
                       (''n'', PInt 1)],
        14 := dict_of [(''headers'', PDict 15), (''body'', PDict 16)],
        15 := dict_of [(''Authorization'', PStr ''mine'')],
        16 := dict_of [(''title'', PStr ''t'')])"

definition example_world :: "string option \<Rightarrow> world" where
  "example_world t =
     \<lparr>client = example_client t, cells = example_cells, instances = Map.empty,
      next_free = 17, sent = []\<rparr>"

section \<open>Dicts\<close>

lemma lookup_setitem:
  "DAList.lookup (setitem d k v) k' = (if k' = k then Some v else DAList.lookup d k')"
  by (simp add: setitem_def)

lemma lookup_fold_setitem:
  "distinct (map fst kvs) \<Longrightarrow>
   DAList.lookup (fold (\<lambda>(k, v) acc. setitem acc k v) kvs d) k =
     (case map_of kvs k of None \<Rightarrow> DAList.lookup d k | Some v \<Rightarrow> Some v)"
proof (induction kvs arbitrary: d)
  case Nil
  then show ?case by simp
next
  case (Cons p kvs)
  obtain k0 v0 where p: "p = (k0, v0)" by (cases p)
  from Cons.prems p have fresh: "map_of kvs k0 = None" and dist: "distinct (map fst kvs)"
    by (auto simp: map_of_eq_None_iff)
  show ?case
    using Cons.IH [OF dist, of "setitem d k0 v0"] fresh p
    by (auto simp: lookup_setitem split: option.splits)
qed

lemma lookup_dict_update:
  "DAList.lookup (dict_update d e) k =
     (case DAList.lookup e k of None \<Rightarrow> DAList.lookup d k | Some v \<Rightarrow> Some v)"
proof -
  have "distinct (map fst (items e))" by (simp add: items_def)
  from lookup_fold_setitem [OF this, of d k] show ?thesis
    by (simp add: dict_update_def items_def DAList.lookup.rep_eq [of e])
qed

lemma lookup_dict_of:
  "distinct (map fst kvs) \<Longrightarrow> DAList.lookup (dict_of kvs) k = map_of kvs k"
  unfolding dict_of_def by (simp add: lookup_fold_setitem split: option.splits)

lemma update_append_new:
  "k \<notin> fst ` set al \<Longrightarrow> AList.update k v al = al @ [(k, v)]"
  by (induction al) auto

lemma items_setitem_new:
  "DAList.lookup d k = None \<Longrightarrow> items (setitem d k v) = items d @ [(k, v)]"
  unfolding items_def setitem_def
  by (simp add: DAList.update.rep_eq DAList.lookup.rep_eq update_append_new map_of_eq_None_iff)

lemma items_empty: "items DAList.empty = []"
  by (simp add: items_def DAList.empty.rep_eq)

lemma lookup_None_iff: "DAList.lookup d k = None \<longleftrightarrow> k \<notin> fst ` set (items d)"
  by (simp add: items_def DAList.lookup.rep_eq map_of_eq_None_iff)

section \<open>The loop over the body\<close>

lemma split_body_Cons:
  "split_body ((k, v) # kvs) data files =
     (if is_file v
      then split_body kvs data (files @ (case v of PFile f \<Rightarrow> get f k | _ \<Rightarrow> []))
      else split_body kvs (setitem data k v) files)"
  by (cases v) (simp_all add: is_file_def)

lemma no_parts: "\<not> is_file v \<Longrightarrow> (case v of PFile f \<Rightarrow> get f k | _ \<Rightarrow> []) = []"
  by (cases v) (simp_all add: is_file_def)

lemma split_body_acc:
  "distinct (map fst kvs) \<Longrightarrow> fst ` set kvs \<inter> fst ` set (items data) = {} \<Longrightarrow>
   split_body kvs data files =
     (DAList.Alist (items data @ filter (\<lambda>(k, v). \<not> is_file v) kvs),
      files @ concat (map (\<lambda>(k, v). case v of PFile f \<Rightarrow> get f k | _ \<Rightarrow> []) kvs))"
proof (induction kvs arbitrary: data files)
  case Nil
  then show ?case by (simp add: items_def DAList.Alist_impl_of)
next
  case (Cons p kvs)
  obtain k v where p: "p = (k, v)" by (cases p)
  from Cons.prems p have d: "distinct (map fst kvs)" and k: "k \<notin> fst ` set kvs"
    and knew: "DAList.lookup data k = None"
    and dis: "fst ` set kvs \<inter> fst ` set (items data) = {}"
    by (auto simp: lookup_None_iff)
  show ?case
  proof (cases "is_file v")
    case True
    then show ?thesis
      using Cons.IH [OF d dis] p by (simp only: split_body_Cons) simp
  next
    case False
    have dis': "fst ` set kvs \<inter> fst ` set (items (setitem data k v)) = {}"
      using dis k by (auto simp: items_setitem_new [OF knew])
    show ?thesis
      using Cons.IH [OF d dis'] p False
      by (simp only: split_body_Cons) (simp add: items_setitem_new [OF knew] no_parts)
  qed
qed

lemma split_body_result:
  "split_body (items d) DAList.empty [] = (DAList.Alist (plain_fields d), file_parts d)"
proof -
  have "distinct (map fst (items d))" by (simp add: items_def)
  from split_body_acc [OF this, of DAList.empty "[]"] show ?thesis
    by (simp add: items_empty plain_fields_def file_parts_def)
qed

lemma items_plain: "items (DAList.Alist (plain_fields d)) = plain_fields d"
  unfolding items_def plain_fields_def
  by (rule DAList.Alist_inverse) (simp add: distinct_map_filter)

lemma file_parts_empty_iff:
  "file_parts d = [] \<longleftrightarrow> (\<forall>(k, v) \<in> set (items d). \<not> is_file v)"
  unfolding file_parts_def
  by (auto simp: is_file_def get_def split: pyval.splits)

section \<open>The URL builder\<close>

lemma build_url_join: "build_url self path = join_url (base_url self) path"
  unfolding build_url_def join_url_def without_trailing_slash_def without_leading_slash_def
    endswith_def startswith_def
  by (cases "base_url self" rule: rev_cases; cases path) (auto simp: suffix_def prefix_def Let_def)

section \<open>The dispatcher, step by step\<close>

lemma encode_body_dict:
  "encode_body h (PDict b) =
     (if file_parts (h b) \<noteq> []
      then (PNone, Some (DAList.Alist (plain_fields (h b))), Some (file_parts (h b)))
      else (PDict b, None, None))"
  by (simp add: encode_body_def split_body_result)

lemma encode_body_other:
  "\<forall>b. body \<noteq> PDict b \<Longrightarrow> encode_body h body = (body, None, None)"
  by (cases body) (auto simp: encode_body_def)

lemma lookup_config:
  "DAList.lookup (dict_update (dict_of [(''method'', PStr ''GET'')]) rc) k =
     (case DAList.lookup rc k of
        None \<Rightarrow> (if k = ''method'' then Some (PStr ''GET'') else None)
      | Some v \<Rightarrow> Some v)"
  by (simp add: lookup_dict_update lookup_dict_of split: option.splits)

lemma authorize_falsy:
  "\<not> truthy (token (auth_store (client w))) \<Longrightarrow> authorize w config = (w, Inr config)"
  by (simp add: authorize_def can_add_authorization_def)

lemma authorize_kept:
  "DAList.lookup config ''headers'' = Some (PDict a) \<Longrightarrow>
   DAList.lookup (cells w a) ''Authorization'' = Some v \<Longrightarrow>
   authorize w config = (w, Inr config)"
  by (simp add: authorize_def can_add_authorization_def has_key_def getitem_def)

lemma authorize_added:
  "truthy (token (auth_store (client w))) \<Longrightarrow>
   DAList.lookup config ''headers'' = Some (PDict a) \<Longrightarrow>
   DAList.lookup (cells w a) ''Authorization'' = None \<Longrightarrow>
   authorize w config =
     (w\<lparr>cells := (cells w)
          (a := dict_update (cells w a)
                  (dict_of [(''Authorization'', token_value (token (auth_store (client w))))]))\<rparr>,
      Inr (setitem config ''headers'' (PDict a)))"
  by (simp add: authorize_def can_add_authorization_def has_key_def getitem_def dict_get_def
      lookup_setitem update_headers_def)

lemma authorize_new:
  "truthy (token (auth_store (client w))) \<Longrightarrow>
   DAList.lookup config ''headers'' = None \<Longrightarrow>
   authorize w config =
     (w\<lparr>cells := (cells w)
          (next_free w := dict_update DAList.empty
                  (dict_of [(''Authorization'', token_value (token (auth_store (client w))))])),
        next_free := Suc (next_free w)\<rparr>,
      Inr (setitem config ''headers'' (PDict (next_free w))))"
  by (simp add: authorize_def can_add_authorization_def has_key_def getitem_def dict_get_def
      lookup_setitem update_headers_def new_dict_def)

lemma prepare_authorized:
  "authorize w (dict_update (dict_of [(''method'', PStr ''GET'')]) (cells w r)) = (w1, Inr c) \<Longrightarrow>
   prepare w path r =
     (w1, Inr \<lparr>req_method = dict_get c ''method'' (PStr ''GET''),
               req_url = build_url (client w1) path,
               req_params = dict_get c ''params'' PNone,
               req_headers = dict_get c ''headers'' PNone,
               req_json = fst (encode_body (cells w1) (dict_get c ''body'' PNone)),
               req_data = fst (snd (encode_body (cells w1) (dict_get c ''body'' PNone))),
               req_files = snd (snd (encode_body (cells w1) (dict_get c ''body'' PNone))),
               req_timeout = timeout (client w1)\<rparr>)"
  by (simp add: prepare_def Let_def split: prod.splits)

lemma prepare_failed:
  "authorize w (dict_update (dict_of [(''method'', PStr ''GET'')]) (cells w r)) = (w1, Inl e) \<Longrightarrow>
   prepare w path r = (w1, Inl e)"
  by (simp add: prepare_def Let_def)

lemma priv_send_world:
  "prepare w path r = (w1, Inr rq) \<Longrightarrow> fst (priv_send w path r) = w1\<lparr>sent := sent w1 @ [rq]\<rparr>"
  by (simp add: priv_send_def Let_def split: sum.splits)

lemma priv_send_result:
  "prepare w path r = (w1, Inr rq) \<Longrightarrow>
   snd (priv_send w path r) =
     (case http_client (client w1) (cells w1) rq of
        Inl e \<Rightarrow>
          (if is_Exception e
           then Inl (ClientResponseErr
                  \<lparr>err_message = ''General request error. Original error: '' @ str_of e,
                   err_url = None, err_status = None, err_data = JNone,
                   original_error = Some e\<rparr>)
           else Inl (Uncaught e))
      | Inr response \<Rightarrow> Inr response)"
  by (simp add: priv_send_def Let_def split: sum.splits)

lemma priv_send_failed:
  "prepare w path r = (w1, Inl e) \<Longrightarrow> priv_send w path r = (w1, Inl e)"
  by (simp add: priv_send_def)

lemma authorize_client: "client (fst (authorize w config)) = client w"
  by (auto simp: authorize_def update_headers_def new_dict_def Let_def
      split: sum.splits bool.splits pyval.splits prod.splits)

lemma authorize_sent: "sent (fst (authorize w config)) = sent w"
  by (auto simp: authorize_def update_headers_def new_dict_def Let_def
      split: sum.splits bool.splits pyval.splits prod.splits)

lemma authorize_instances: "instances (fst (authorize w config)) = instances w"
  by (auto simp: authorize_def update_headers_def new_dict_def Let_def
      split: sum.splits bool.splits pyval.splits prod.splits)

lemma authorize_next_free: "next_free w \<le> next_free (fst (authorize w config))"
  by (auto simp: authorize_def update_headers_def new_dict_def Let_def
      split: sum.splits bool.splits pyval.splits prod.splits)

lemma authorize_frame:
  "a < next_free w \<Longrightarrow> dict_get config ''headers'' PNone \<noteq> PDict a \<Longrightarrow>
   cells (fst (authorize w config)) a = cells w a"
  by (auto simp: authorize_def update_headers_def new_dict_def Let_def getitem_def lookup_setitem
      dict_get_def has_key_def
      split: sum.splits bool.splits pyval.splits prod.splits option.splits if_splits)

lemma prepare_fst:
  "fst (prepare w path r) =
     fst (authorize w (dict_update (dict_of [(''method'', PStr ''GET'')]) (cells w r)))"
  by (simp add: prepare_def Let_def split: prod.splits sum.splits)

lemma dict_get_config_headers:
  "dict_get (dict_update (dict_of [(''method'', PStr ''GET'')]) rc) ''headers'' d =
     dict_get rc ''headers'' d"
  by (simp add: dict_get_def lookup_config split: option.splits)

lemma dict_get_config_body:
  "dict_get (dict_update (dict_of [(''method'', PStr ''GET'')]) rc) ''body'' d =
     dict_get rc ''body'' d"
  by (simp add: dict_get_def lookup_config split: option.splits)


lemma authorize_succeeds:
  assumes "case DAList.lookup config ''headers'' of
             None \<Rightarrow> True | Some (PDict a) \<Rightarrow> True | Some _ \<Rightarrow> False"
  shows "\<exists>w1 c. authorize w config = (w1, Inr c) \<and>
           dict_get c ''body'' PNone = dict_get config ''body'' PNone"
proof (cases "truthy (token (auth_store (client w)))")
  case False
  from authorize_falsy [OF this] show ?thesis by simp
next
  case True
  show ?thesis
  proof (cases "DAList.lookup config ''headers''")
    case None
    from authorize_new [OF True None] show ?thesis by (simp add: dict_get_def lookup_setitem)
  next
    case (Some hv)
    with assms obtain a where hv: "hv = PDict a" by (cases hv) auto
    show ?thesis
    proof (cases "DAList.lookup (cells w a) ''Authorization''")
      case None
      from authorize_added [OF True _ None] Some hv show ?thesis
        by (simp add: dict_get_def lookup_setitem)
    next
      case (Some v)
      from authorize_kept [OF _ Some] \<open>DAList.lookup config ''headers'' = Some hv\<close> hv
      show ?thesis by simp
    qed
  qed
qed

lemma prepare_succeeds:
  assumes "headers_given_as_mapping w r"
  shows "\<exists>w1 rq. prepare w path r = (w1, Inr rq) \<and>
           w1 = fst (authorize w (dict_update (dict_of [(''method'', PStr ''GET'')]) (cells w r))) \<and>
           req_json rq = fst (encode_body (cells w1) (dict_get (cells w r) ''body'' PNone)) \<and>
           req_data rq = fst (snd (encode_body (cells w1) (dict_get (cells w r) ''body'' PNone))) \<and>
           req_files rq = snd (snd (encode_body (cells w1) (dict_get (cells w r) ''body'' PNone)))"
proof -
  let ?c = "dict_update (dict_of [(''method'', PStr ''GET'')]) (cells w r)"
  from assms have "case DAList.lookup ?c ''headers'' of
             None \<Rightarrow> True | Some (PDict a) \<Rightarrow> True | Some _ \<Rightarrow> False"
    by (simp add: headers_given_as_mapping_def lookup_config split: option.splits)
  from authorize_succeeds [OF this, of w] obtain w1 c where
    a: "authorize w ?c = (w1, Inr c)" and b: "dict_get c ''body'' PNone = dict_get ?c ''body'' PNone"
    by blast
  from prepare_authorized [OF a, of path] a b show ?thesis
    by (simp add: dict_get_config_body)
qed

section \<open>The service cache\<close>

lemma cache_ok_empty: "record_service (client w) = Map.empty \<Longrightarrow> cache_ok w"
  by (simp add: cache_ok_def)

lemma collection_hit:
  "record_service (client w) i = Some a \<Longrightarrow> collection w i = (w, Inr a)"
  by (simp add: collection_def)

lemma collection_miss:
  "record_service (client w) i = None \<Longrightarrow>
   collection w i =
     (w\<lparr>instances := (instances w)(next_free w \<mapsto> \<lparr>collection_id_or_name = i\<rparr>),
        next_free := Suc (next_free w),
        client := (client w)\<lparr>record_service := (record_service (client w))(i \<mapsto> next_free w)\<rparr>\<rparr>,
      Inr (next_free w))"
  by (simp add: collection_def new_RecordService_def)

lemma collection_returns:
  "\<exists>a. snd (collection w i) = Inr a \<and> record_service (client (fst (collection w i))) i = Some a"
  by (cases "record_service (client w) i") (auto simp: collection_hit collection_miss)

lemma collection_keeps:
  "record_service (client w) k = Some a \<Longrightarrow>
   record_service (client (fst (collection w i))) k = Some a"
  by (cases "record_service (client w) i") (auto simp: collection_hit collection_miss)

lemma collection_instances_kept:
  "a < next_free w \<Longrightarrow> instances (fst (collection w i)) a = instances w a"
  by (cases "record_service (client w) i") (auto simp: collection_hit collection_miss)

lemma cache_ok_bound:
  "cache_ok w \<Longrightarrow> record_service (client w) i = Some a \<Longrightarrow>
   a < next_free w \<and> instances w a = Some \<lparr>collection_id_or_name = i\<rparr>"
  unfolding cache_ok_def by blast

text \<open>No instance is cached under two identifiers.\<close>

lemma cache_ok_inj:
  assumes "cache_ok w" "record_service (client w) i = Some a" "record_service (client w) j = Some a"
  shows "i = j"
  using cache_ok_bound [OF assms(1,2)] cache_ok_bound [OF assms(1,3)] by simp

lemma collection_cache_ok: "cache_ok w \<Longrightarrow> cache_ok (fst (collection w i))"
proof (cases "record_service (client w) i")
  case None
  assume ok: "cache_ok w"
  have rs: "record_service (client (fst (collection w i))) =
      (record_service (client w))(i \<mapsto> next_free w)"
    and nf: "next_free (fst (collection w i)) = Suc (next_free w)"
    and ins: "instances (fst (collection w i)) =
      (instances w)(next_free w \<mapsto> \<lparr>collection_id_or_name = i\<rparr>)"
    by (simp_all add: collection_miss [OF None])
  have "a < Suc (next_free w) \<and>
      ((instances w)(next_free w \<mapsto> \<lparr>collection_id_or_name = i\<rparr>)) a =
        Some \<lparr>collection_id_or_name = k\<rparr>"
    if "((record_service (client w))(i \<mapsto> next_free w)) k = Some a" for k a
  proof (cases "k = i")
    case True
    with that show ?thesis by simp
  next
    case False
    with that have "record_service (client w) k = Some a" by simp
    from cache_ok_bound [OF ok this] show ?thesis by simp
  qed
  then show ?thesis
    unfolding cache_ok_def rs nf ins by blast
next
  case (Some a)
  assume "cache_ok w"
  then show ?thesis by (simp add: collection_hit [OF Some])
qed

section \<open>What a dispatch leaves as it was\<close>

lemma prepare_sent: "prepare w path r = (w1, res) \<Longrightarrow> sent w1 = sent w"
  using prepare_fst [of w path r] by (simp add: authorize_sent)

lemma priv_send_client: "client (fst (priv_send w path r)) = client w"
proof (cases "prepare w path r")
  case (Pair w1 res)
  have "client w1 = client w" using Pair prepare_fst [of w path r] by (simp add: authorize_client)
  then show ?thesis
    using Pair by (cases res) (simp_all add: priv_send_failed priv_send_world)
qed

lemma priv_send_next_free: "next_free w \<le> next_free (fst (priv_send w path r))"
proof (cases "prepare w path r")
  case (Pair w1 res)
  have "next_free w \<le> next_free w1"
    using Pair prepare_fst [of w path r] authorize_next_free [of w] by simp
  then show ?thesis
    using Pair by (cases res) (simp_all add: priv_send_failed priv_send_world)
qed

lemma priv_send_instances: "instances (fst (priv_send w path r)) = instances w"
proof (cases "prepare w path r")
  case (Pair w1 res)
  have "instances w1 = instances w"
    using Pair prepare_fst [of w path r] by (simp add: authorize_instances)
  then show ?thesis
    using Pair by (cases res) (simp_all add: priv_send_failed priv_send_world)
qed

text \<open>
  Of the objects that exist before the call, only the dict the configuration names as its
  headers can change.
\<close>

lemma priv_send_frame:
  assumes "a < next_free w" "dict_get (cells w r) ''headers'' PNone \<noteq> PDict a"
  shows "cells (fst (priv_send w path r)) a = cells w a"
proof (cases "prepare w path r")
  case (Pair w1 res)
  from assms(2) have
    "dict_get (dict_update (dict_of [(''method'', PStr ''GET'')]) (cells w r)) ''headers'' PNone
       \<noteq> PDict a"
    unfolding dict_get_config_headers .
  from authorize_frame [OF assms(1) this] have "cells w1 a = cells w a"
    using Pair prepare_fst [of w path r] by simp
  then show ?thesis
    using Pair by (cases res) (simp_all add: priv_send_failed priv_send_world)
qed

lemma priv_send_cache_ok: "cache_ok w \<Longrightarrow> cache_ok (fst (priv_send w path r))"
  unfolding cache_ok_def priv_send_client priv_send_instances
  using priv_send_next_free [of w path r] by (meson less_le_trans)

lemma send_world: "fst (send w path r) = fst (priv_send w path r)"
  by (simp add: send_def split: prod.splits sum.splits)

lemma send_raw_world: "fst (send_raw w path r) = fst (priv_send w path r)"
  by (simp add: send_raw_def split: prod.splits sum.splits)

section \<open>The life of a client\<close>

lemma step_keeps:
  "record_service (client w) k = Some a \<Longrightarrow> record_service (client (step w c)) k = Some a"
  by (cases c) (simp_all add: collection_keeps send_world send_raw_world priv_send_client)

lemma step_cache_ok: "cache_ok w \<Longrightarrow> cache_ok (step w c)"
  by (cases c) (simp_all add: collection_cache_ok send_world send_raw_world priv_send_cache_ok)

lemma run_keeps:
  "record_service (client w) k = Some a \<Longrightarrow> record_service (client (run w cs)) k = Some a"
  unfolding run_def
  by (induction cs arbitrary: w) (auto simp: step_keeps)

lemma run_cache_ok: "cache_ok w \<Longrightarrow> cache_ok (run w cs)"
  unfolding run_def
  by (induction cs arbitrary: w) (auto simp: step_cache_ok)

section \<open>The example client\<close>

lemma priv_send_anonymous:
  assumes "\<not> truthy (token (auth_store (client w)))"
  shows "\<exists>rq. prepare w path r = (w, Inr rq) \<and> req_url rq = build_url (client w) path"
  using prepare_authorized [where r = r and path = path, OF authorize_falsy [OF assms]] by simp

lemma example_lookup:
  "DAList.lookup (example_cells 10) ''headers'' = Some (PDict 11)"
  "DAList.lookup (example_cells 10) ''body'' = Some (PDict 12)"
  "DAList.lookup (example_cells 11) ''Authorization'' = None"
  "DAList.lookup (example_cells 13) k = None"
  "DAList.lookup (example_cells 14) ''headers'' = Some (PDict 15)"
  "DAList.lookup (example_cells 14) ''body'' = Some (PDict 16)"
  "DAList.lookup (example_cells 15) ''Authorization'' = Some (PStr ''mine'')"
  by (simp_all add: example_cells_def lookup_dict_of)

lemma items_dict_of_new:
  "distinct (map fst kvs) \<Longrightarrow> items (dict_of kvs) = kvs"
proof -
  have "distinct (map fst (items d @ kvs)) \<Longrightarrow>
      items (fold (\<lambda>(k, v) acc. setitem acc k v) kvs d) = items d @ kvs" for d
  proof (induction kvs arbitrary: d)
    case Nil
    then show ?case by simp
  next
    case (Cons p kvs)
    obtain k v where p: "p = (k, v)" by (cases p)
    from Cons.prems p have new: "DAList.lookup d k = None"
      by (auto simp: lookup_None_iff)
    from Cons.prems p have "distinct (map fst (items (setitem d k v) @ kvs))"
      by (auto simp: items_setitem_new [OF new])
    from Cons.IH [OF this] p show ?case by (simp add: items_setitem_new [OF new])
  qed
  from this [of DAList.empty] show "distinct (map fst kvs) \<Longrightarrow> items (dict_of kvs) = kvs"
    by (simp add: dict_of_def items_empty)
qed

lemma example_items:
  "items (example_cells 11) = [(''X-Test'', PStr ''1'')]"
  "items (example_cells 12) =
     [(''title'', PStr ''t''), (''doc'', PFile (FileUpload ''%PDF'')), (''n'', PInt 1)]"
  "items (example_cells 16) = [(''title'', PStr ''t'')]"
  by (simp_all add: example_cells_def items_dict_of_new)

section \<open>The claims\<close>

lemma example_anonymous: "\<not> truthy (token (auth_store (client (example_world None))))"
  by (simp add: truthy_def example_world_def example_client_def)

lemma example_url: "build_url (client (example_world t)) (CHR ''/'' # p) = ''http://h/'' @ p"
  by (simp add: build_url_def example_world_def example_client_def endswith_def startswith_def
      suffix_to_prefix Let_def)



text \<open>
  Claim C2. For a body that is a dict (an object of the store other than the headers dict):
  with an upload among its values the engine gets no JSON body, the plain entries as form
  data and the uploads' parts as files; without one it gets the dict as JSON body and
  neither form data nor files. Without a body it gets none of the three.
\<close>

theorem body_encoding_selected:
  assumes "headers_given_as_mapping w r"
  shows "(DAList.lookup (cells w r) ''body'' = Some (PDict b) \<and> b < next_free w \<and>
          DAList.lookup (cells w r) ''headers'' \<noteq> Some (PDict b) \<longrightarrow>
           (\<exists>rq. sent (fst (priv_send w path r)) = sent w @ [rq] \<and>
              cells (fst (priv_send w path r)) b = cells w b \<and>
              (if \<exists>(k, v) \<in> set (items (cells w b)). is_file v
               then req_json rq = PNone \<and>
                    map_option items (req_data rq) = Some (plain_fields (cells w b)) \<and>
                    req_files rq = Some (file_parts (cells w b))
               else req_json rq = PDict b \<and> req_data rq = None \<and> req_files rq = None)))
       \<and> (dict_get (cells w r) ''body'' PNone = PNone \<longrightarrow>
           (\<exists>rq. sent (fst (priv_send w path r)) = sent w @ [rq] \<and>
              req_json rq = PNone \<and> req_data rq = None \<and> req_files rq = None))"
proof -
  let ?c = "dict_update (dict_of [(''method'', PStr ''GET'')]) (cells w r)"
  from prepare_succeeds [OF assms, of path] obtain w1 rq where
    p: "prepare w path r = (w1, Inr rq)"
    and w1: "w1 = fst (authorize w ?c)"
    and j: "req_json rq = fst (encode_body (cells w1) (dict_get (cells w r) ''body'' PNone))"
    and d: "req_data rq = fst (snd (encode_body (cells w1) (dict_get (cells w r) ''body'' PNone)))"
    and f: "req_files rq = snd (snd (encode_body (cells w1) (dict_get (cells w r) ''body'' PNone)))"
    by blast
  have s: "sent (fst (priv_send w path r)) = sent w @ [rq]"
    and c: "cells (fst (priv_send w path r)) = cells w1"
    using priv_send_world [OF p] w1 by (simp_all add: authorize_sent)
  have absent: "dict_get (cells w r) ''body'' PNone = PNone \<longrightarrow>
           (\<exists>rq. sent (fst (priv_send w path r)) = sent w @ [rq] \<and>
              req_json rq = PNone \<and> req_data rq = None \<and> req_files rq = None)"
    using s j d f by (auto simp: encode_body_other)
  have mapping: "\<exists>rq. sent (fst (priv_send w path r)) = sent w @ [rq] \<and>
              cells (fst (priv_send w path r)) b = cells w b \<and>
              (if \<exists>(k, v) \<in> set (items (cells w b)). is_file v
               then req_json rq = PNone \<and>
                    map_option items (req_data rq) = Some (plain_fields (cells w b)) \<and>
                    req_files rq = Some (file_parts (cells w b))
               else req_json rq = PDict b \<and> req_data rq = None \<and> req_files rq = None)"
    if body: "DAList.lookup (cells w r) ''body'' = Some (PDict b)" and al: "b < next_free w"
      and na: "DAList.lookup (cells w r) ''headers'' \<noteq> Some (PDict b)"
  proof -
    from na have "dict_get ?c ''headers'' PNone \<noteq> PDict b"
      unfolding dict_get_config_headers by (auto simp: dict_get_def split: option.splits)
    from authorize_frame [OF al this] w1 have same: "cells w1 b = cells w b" by simp
    from body have b: "dict_get (cells w r) ''body'' PNone = PDict b"
      by (simp add: dict_get_def)
    show ?thesis
      using s c same j d f b
      by (auto simp: encode_body_dict file_parts_empty_iff items_plain)
  qed
  from absent mapping show ?thesis by blast
qed

theorem body_encoding_selected_witness:
  "(\<exists>rq. sent (fst (priv_send (example_world (Some ''tok'')) ''/a'' 10)) = [rq] \<and>
      req_json rq = PNone \<and>
      map_option items (req_data rq) = Some [(''title'', PStr ''t''), (''n'', PInt 1)] \<and>
      req_files rq = Some [(''doc'', FileUpload ''%PDF'')])
   \<and> (\<exists>rq. sent (fst (priv_send (example_world (Some ''tok'')) ''/a'' 14)) = [rq] \<and>
      req_json rq = PDict 16 \<and> req_data rq = None \<and> req_files rq = None)
   \<and> (\<exists>rq. sent (fst (priv_send (example_world (Some ''tok'')) ''/a'' 13)) = [rq] \<and>
      req_json rq = PNone \<and> req_data rq = None \<and> req_files rq = None)"
proof -
  let ?w = "example_world (Some ''tok'')"
  have h: "headers_given_as_mapping ?w 10" "headers_given_as_mapping ?w 14"
    "headers_given_as_mapping ?w 13"
    by (simp_all add: headers_given_as_mapping_def example_world_def example_lookup)
  from body_encoding_selected [OF h(1), of 12 "''/a''"]
    body_encoding_selected [OF h(2), of 16 "''/a''"]
    body_encoding_selected [OF h(3), of 0 "''/a''"]
  show ?thesis
    by (simp add: example_world_def example_lookup example_items is_file_def plain_fields_def
        file_parts_def get_def dict_get_def) blast
qed

text \<open>
  Claim C3. When the dispatch has returned a response: with a status code of 400 or more
  \<open>send\<close> raises a \<open>ClientResponseError\<close> whose message states the status code, whose
  URL and status are those of the response and whose data is the decoded body, or nothing
  when the body does not decode; with a smaller status code it returns the decoded body.
\<close>

theorem send_status_checked:
  assumes "priv_send w path r = (w1, Inr response)"
    and "\<forall>e. json response = Inl e \<longrightarrow> is_Exception e"
  shows "(status_code response \<ge> 400 \<longrightarrow>
            send w path r =
              (w1, Inl (ClientResponseErr
                     \<lparr>err_message = ''Response error. Status code:'' @ str_int (status_code response),
                      err_url = Some (url response),
                      err_status = Some (status_code response),
                      err_data = (case json response of Inl e \<Rightarrow> JNone | Inr d \<Rightarrow> d),
                      original_error = None\<rparr>)))
       \<and> (status_code response < 400 \<longrightarrow>
            send w path r = (w1, Inr (case json response of Inl e \<Rightarrow> JNone | Inr d \<Rightarrow> d)))"
  using assms by (cases "json response") (auto simp: send_def)

theorem send_status_checked_witness:
  "snd (send (example_world None) ''/records/1'' 13) = Inr (JDict [(''id'', JStr ''1'')])
   \<and> snd (send (example_world None) ''/missing'' 13) =
       Inl (ClientResponseErr
             \<lparr>err_message = ''Response error. Status code:404'',
              err_url = Some ''http://h/missing'', err_status = Some 404,
              err_data = JDict [(''message'', JStr ''not found'')],
              original_error = None\<rparr>)"
proof -
  let ?w = "example_world None"
  let ?ok = "\<lparr>status_code = 200, url = ''http://h/records/1'',
      content = ''{'' @ quoted ''id'' @ '':'' @ quoted ''1'' @ ''}'',
      json = Inr (JDict [(''id'', JStr ''1'')])\<rparr>"
  let ?missing = "\<lparr>status_code = 404, url = ''http://h/missing'',
      content = ''{'' @ quoted ''message'' @ '':'' @ quoted ''not found'' @ ''}'',
      json = Inr (JDict [(''message'', JStr ''not found'')])\<rparr>"
  from priv_send_anonymous [OF example_anonymous, of "''/records/1''" 13]
  obtain rq where p: "prepare ?w ''/records/1'' 13 = (?w, Inr rq)"
    and u: "req_url rq = ''http://h/records/1''"
    by (auto simp: example_url)
  have "snd (priv_send ?w ''/records/1'' 13) = Inr ?ok"
    unfolding priv_send_result [OF p] using u
    by (simp add: example_world_def example_client_def example_engine_def)
  then have 1: "priv_send ?w ''/records/1'' 13 = (fst (priv_send ?w ''/records/1'' 13), Inr ?ok)"
    by (simp add: prod_eq_iff)
  from priv_send_anonymous [OF example_anonymous, of "''/missing''" 13]
  obtain rq' where p': "prepare ?w ''/missing'' 13 = (?w, Inr rq')"
    and u': "req_url rq' = ''http://h/missing''"
    by (auto simp: example_url)
  have "snd (priv_send ?w ''/missing'' 13) = Inr ?missing"
    unfolding priv_send_result [OF p'] using u'
    by (simp add: example_world_def example_client_def example_engine_def)
  then have 2: "priv_send ?w ''/missing'' 13 = (fst (priv_send ?w ''/missing'' 13), Inr ?missing)"
    by (simp add: prod_eq_iff)
  from send_status_checked [OF 1] send_status_checked [OF 2]
  show ?thesis by (simp add: str_int_def digit_def)
qed

text \<open>
  Claim C4. When the engine raises an exception, \<open>_send\<close> raises a \<open>ClientResponseError\<close>
  that holds the exception as its original error and names it in its message, with no URL,
  no status code and no data. The engine has been asked once, and \<open>send\<close> and \<open>send_raw\<close>
  pass the error on.
\<close>

theorem transport_error_wrapped:
  assumes "prepare w path r = (w1, Inr rq)"
    and "http_client (client w1) (cells w1) rq = Inl e"
    and "is_Exception e"
  shows "\<exists>err. snd (priv_send w path r) = Inl (ClientResponseErr err)
           \<and> original_error err = Some e
           \<and> err_message err = ''General request error. Original error: '' @ str_of e
           \<and> err_url err = None \<and> err_status err = None \<and> err_data err = JNone
           \<and> sent (fst (priv_send w path r)) = sent w @ [rq]
           \<and> snd (send w path r) = Inl (ClientResponseErr err)
           \<and> snd (send_raw w path r) = Inl (ClientResponseErr err)"
proof -
  let ?err = "\<lparr>err_message = ''General request error. Original error: '' @ str_of e,
               err_url = None, err_status = None, err_data = JNone,
               original_error = Some e\<rparr>"
  have 1: "priv_send w path r = (w1\<lparr>sent := sent w1 @ [rq]\<rparr>, Inl (ClientResponseErr ?err))"
    using priv_send_world [OF assms(1)] priv_send_result [OF assms(1)] assms(2,3)
    by (cases "priv_send w path r") simp
  then have "snd (send w path r) = Inl (ClientResponseErr ?err)"
    and "snd (send_raw w path r) = Inl (ClientResponseErr ?err)"
    by (simp_all add: send_def send_raw_def)
  with 1 prepare_sent [OF assms(1)] show ?thesis by simp
qed

theorem transport_error_wrapped_witness:
  "\<exists>err. snd (priv_send (example_world None) ''/down'' 13) = Inl (ClientResponseErr err)
     \<and> original_error err = Some (Raised True ''connection refused'')
     \<and> err_message err = ''General request error. Original error: connection refused''
     \<and> err_url err = None \<and> err_status err = None \<and> err_data err = JNone
     \<and> length (sent (fst (priv_send (example_world None) ''/down'' 13))) = 1
     \<and> snd (send (example_world None) ''/down'' 13) = Inl (ClientResponseErr err)
     \<and> snd (send_raw (example_world None) ''/down'' 13) = Inl (ClientResponseErr err)"
proof -
  let ?w = "example_world None"
  from priv_send_anonymous [OF example_anonymous, of "''/down''" 13]
  obtain rq where p: "prepare ?w ''/down'' 13 = (?w, Inr rq)"
    and u: "req_url rq = ''http://h/down''"
    by (auto simp: example_url)
  have e: "http_client (client ?w) (cells ?w) rq = Inl (Raised True ''connection refused'')"
    using u by (simp add: example_world_def example_client_def example_engine_def)
  have s: "sent ?w = []" by (simp add: example_world_def)
  from transport_error_wrapped [OF p e] s show ?thesis by auto
qed

text \<open>
  Claim C5. When the body of the response does not decode as JSON, \<open>send\<close> does not raise
  for that: below status 400 it returns \<open>None\<close>, from 400 on the \<open>ClientResponseError\<close> for
  the status carries no data.
\<close>

theorem send_decode_failure_swallowed:
  assumes "priv_send w path r = (w1, Inr response)"
    and "json response = Inl e" and "is_Exception e"
  shows "(status_code response < 400 \<longrightarrow> send w path r = (w1, Inr JNone))
       \<and> (status_code response \<ge> 400 \<longrightarrow>
            (\<exists>err. send w path r = (w1, Inl (ClientResponseErr err)) \<and> err_data err = JNone \<and>
               err_status err = Some (status_code response) \<and> original_error err = None))"
  using assms by (auto simp: send_def)

theorem send_decode_failure_swallowed_witness:
  "snd (send (example_world None) ''/text'' 13) = Inr JNone
   \<and> (\<exists>err. snd (send (example_world None) ''/broken'' 13) = Inl (ClientResponseErr err) \<and>
         err_data err = JNone \<and> err_status err = Some 502 \<and> original_error err = None)"
proof -
  let ?w = "example_world None"
  let ?text = "\<lparr>status_code = 200, url = ''http://h/text'', content = ''hello'',
      json = Inl (Raised True ''Expecting value'')\<rparr>"
  let ?broken = "\<lparr>status_code = 502, url = ''http://h/broken'', content = ''Bad Gateway'',
      json = Inl (Raised True ''Expecting value'')\<rparr>"
  from priv_send_anonymous [OF example_anonymous, of "''/text''" 13]
  obtain rq where p: "prepare ?w ''/text'' 13 = (?w, Inr rq)"
    and u: "req_url rq = ''http://h/text''"
    by (auto simp: example_url)
  have "snd (priv_send ?w ''/text'' 13) = Inr ?text"
    unfolding priv_send_result [OF p] using u
    by (simp add: example_world_def example_client_def example_engine_def)
  then have 1: "priv_send ?w ''/text'' 13 = (fst (priv_send ?w ''/text'' 13), Inr ?text)"
    by (simp add: prod_eq_iff)
  from priv_send_anonymous [OF example_anonymous, of "''/broken''" 13]
  obtain rq' where p': "prepare ?w ''/broken'' 13 = (?w, Inr rq')"
    and u': "req_url rq' = ''http://h/broken''"
    by (auto simp: example_url)
  have "snd (priv_send ?w ''/broken'' 13) = Inr ?broken"
    unfolding priv_send_result [OF p'] using u'
    by (simp add: example_world_def example_client_def example_engine_def)
  then have 2: "priv_send ?w ''/broken'' 13 = (fst (priv_send ?w ''/broken'' 13), Inr ?broken)"
    by (simp add: prod_eq_iff)
  from send_decode_failure_swallowed [OF 1, of "Raised True ''Expecting value''"]
    send_decode_failure_swallowed [OF 2, of "Raised True ''Expecting value''"]
  show ?thesis by auto
qed

text \<open>
  Claim C6. \<open>build_url\<close> joins the base URL and the path by one slash, whether or not the
  base ends with a slash or the path starts with one: it gives the result the specification
  words, on the six combinations the specification lists in particular. No other slash is
  dropped and no character is encoded; the function is total.
\<close>

theorem build_url_one_separator:
  "build_url self path = join_url (base_url self) path
   \<and> build_url (self\<lparr>base_url := ''/''\<rparr>) ''a'' = ''/a''
   \<and> build_url (self\<lparr>base_url := ''/''\<rparr>) ''/a'' = ''/a''
   \<and> build_url (self\<lparr>base_url := ''http://h/''\<rparr>) ''a'' = ''http://h/a''
   \<and> build_url (self\<lparr>base_url := ''http://h/''\<rparr>) ''/a'' = ''http://h/a''
   \<and> build_url (self\<lparr>base_url := ''http://h''\<rparr>) ''a'' = ''http://h/a''
   \<and> build_url (self\<lparr>base_url := ''http://h''\<rparr>) ''/a'' = ''http://h/a''
   \<and> build_url (self\<lparr>base_url := ''http://h//''\<rparr>) ''//a/b c'' = ''http://h///a/b c''"
  by (simp add: build_url_join join_url_def without_trailing_slash_def
      without_leading_slash_def)

theorem build_url_one_separator_witness:
  "build_url (example_client None) ''/api/health'' = ''http://h/api/health''
   \<and> build_url (example_client None) ''api/health'' = ''http://h/api/health''"
  using build_url_one_separator [of "example_client None" "''/api/health''"]
    build_url_one_separator [of "example_client None" "''api/health''"]
  by (simp add: example_client_def join_url_def without_trailing_slash_def
      without_leading_slash_def)

text \<open>
  Claim C7. In a state where the cache invariant holds, \<open>collection\<close> returns a
  \<open>RecordService\<close> instance bound to the identifier; after any further calls of the
  client's methods the same identifier gives that very instance, still bound to it, and
  every other identifier gives another one; an entry of the cache is never removed or
  replaced, nor is the instance it names; and the invariant holds again.
\<close>

theorem collection_cached:
  assumes "cache_ok w"
  shows "(\<exists>a. snd (collection w i) = Inr a \<and>
            instances (fst (collection w i)) a = Some \<lparr>collection_id_or_name = i\<rparr> \<and>
            snd (collection (run (fst (collection w i)) cs) i) = Inr a \<and>
            instances (fst (collection (run (fst (collection w i)) cs) i)) a =
              Some \<lparr>collection_id_or_name = i\<rparr> \<and>
            (\<forall>j. j \<noteq> i \<longrightarrow> snd (collection (run (fst (collection w i)) cs) j) \<noteq> Inr a))
       \<and> (\<forall>k a. record_service (client w) k = Some a \<longrightarrow>
            record_service (client (fst (collection w i))) k = Some a \<and>
            instances (fst (collection w i)) a = instances w a)
       \<and> cache_ok (fst (collection w i))"
proof -
  let ?w1 = "fst (collection w i)"
  let ?w2 = "run ?w1 cs"
  let ?w3 = "fst (collection ?w2 i)"
  from collection_returns [of w i] obtain a where
    r: "snd (collection w i) = Inr a" and c1: "record_service (client ?w1) i = Some a"
    by blast
  have ok1: "cache_ok ?w1" using assms by (rule collection_cache_ok)
  then have ok2: "cache_ok ?w2" by (rule run_cache_ok)
  then have ok3: "cache_ok ?w3" by (rule collection_cache_ok)
  from cache_ok_bound [OF ok1 c1]
  have i1: "instances ?w1 a = Some \<lparr>collection_id_or_name = i\<rparr>" by simp
  from c1 have c2: "record_service (client ?w2) i = Some a" by (rule run_keeps)
  then have again: "snd (collection ?w2 i) = Inr a" by (simp add: collection_hit)
  from c2 have "record_service (client ?w3) i = Some a" by (rule collection_keeps)
  from cache_ok_bound [OF ok3 this]
  have i3: "instances ?w3 a = Some \<lparr>collection_id_or_name = i\<rparr>" by simp
  have other: "snd (collection ?w2 j) \<noteq> Inr a" if "j \<noteq> i" for j
  proof -
    from collection_returns [of ?w2 j] obtain b where
      rb: "snd (collection ?w2 j) = Inr b"
      and cb: "record_service (client (fst (collection ?w2 j))) j = Some b" by blast
    from c2 have ca: "record_service (client (fst (collection ?w2 j))) i = Some a"
      by (rule collection_keeps)
    from ok2 have "cache_ok (fst (collection ?w2 j))" by (rule collection_cache_ok)
    from cache_ok_inj [OF this ca] cb that have "a \<noteq> b" by auto
    with rb show ?thesis by simp
  qed
  have kept: "record_service (client ?w1) k = Some b \<and> instances ?w1 b = instances w b"
    if "record_service (client w) k = Some b" for k b
    using that cache_ok_bound [OF assms that]
    by (simp add: collection_keeps collection_instances_kept)
  from r i1 again i3 other kept ok1 show ?thesis by blast
qed

theorem collection_cached_witness:
  "cache_ok (example_world None)
   \<and> (\<exists>a. snd (collection (example_world None) ''posts'') = Inr a \<and>
        instances (fst (collection (example_world None) ''posts'')) a =
          Some \<lparr>collection_id_or_name = ''posts''\<rparr> \<and>
        snd (collection (fst (collection (example_world None) ''posts'')) ''posts'') = Inr a \<and>
        snd (collection (run (fst (collection (example_world None) ''posts''))
               [Collection ''comments'', Send ''/a'' 10, Collection ''users'']) ''posts'') = Inr a \<and>
        instances (fst (collection (run (fst (collection (example_world None) ''posts''))
               [Collection ''comments'', Send ''/a'' 10, Collection ''users'']) ''posts'')) a =
          Some \<lparr>collection_id_or_name = ''posts''\<rparr> \<and>
        snd (collection (fst (collection (example_world None) ''posts'')) ''comments'') \<noteq> Inr a)"
proof -
  have ok: "cache_ok (example_world None)"
    by (rule cache_ok_empty) (simp add: example_world_def example_client_def)
  from collection_cached [OF ok, of "''posts''" "[]"]
    collection_cached [OF ok, of "''posts''"
      "[Collection ''comments'', Send ''/a'' 10, Collection ''users'']"]
  show ?thesis using ok by (auto simp: run_def)
qed

text \<open>
  Claim C8, at the input where the code departs from it: the caller passes headers
  without an \<open>Authorization\<close> entry and the client holds a token. After the call the
  caller's own headers dict has the entry.
\<close>

theorem send_adds_token_to_callers_headers:
  "items (cells (example_world (Some ''tok'')) 11) = [(''X-Test'', PStr ''1'')] \<and>
   items (cells (fst (priv_send (example_world (Some ''tok'')) ''/a'' 10)) 11) =
     [(''X-Test'', PStr ''1''), (''Authorization'', PStr ''tok'')]"
proof -
  let ?w = "example_world (Some ''tok'')"
  let ?c = "dict_update (dict_of [(''method'', PStr ''GET'')]) (cells ?w 10)"
  have t: "truthy (token (auth_store (client ?w)))"
    by (simp add: truthy_def example_world_def example_client_def)
  have h: "DAList.lookup ?c ''headers'' = Some (PDict 11)"
    by (simp add: lookup_config example_world_def example_lookup)
  have n: "DAList.lookup (cells ?w 11) ''Authorization'' = None"
    by (simp add: example_world_def example_lookup)
  from prepare_authorized [OF authorize_added [OF t h n], of "''/a''"]
  obtain w1 rq where p: "prepare ?w ''/a'' 10 = (w1, Inr rq)"
    and w1: "cells w1 11 = dict_update (cells ?w 11) (dict_of [(''Authorization'', PStr ''tok'')])"
    by (simp add: token_value_def example_world_def example_client_def)
  have "items (dict_update (cells ?w 11) (dict_of [(''Authorization'', PStr ''tok'')])) =
      [(''X-Test'', PStr ''1''), (''Authorization'', PStr ''tok'')]"
    by (simp add: dict_update_def items_dict_of_new example_world_def
        items_setitem_new lookup_None_iff example_items)
  with priv_send_world [OF p] w1 show ?thesis
    by (simp add: example_world_def example_items)
qed

text \<open>
  Claim C9. Whatever response the engine returns, \<open>send_raw\<close> returns its body bytes; the
  status code is not looked at.
\<close>

theorem send_raw_returns_content:
  assumes "prepare w path r = (w1, Inr rq)"
    and "http_client (client w1) (cells w1) rq = Inr response"
  shows "send_raw w path r = (w1\<lparr>sent := sent w1 @ [rq]\<rparr>, Inr (content response))"
  using priv_send_world [OF assms(1)] priv_send_result [OF assms(1)] assms(2)
  by (cases "priv_send w path r") (simp add: send_raw_def)

theorem send_raw_returns_content_witness:
  "snd (send_raw (example_world None) ''/broken'' 13) = Inr ''Bad Gateway''"
proof -
  let ?w = "example_world None"
  from priv_send_anonymous [OF example_anonymous, of "''/broken''" 13]
  obtain rq where p: "prepare ?w ''/broken'' 13 = (?w, Inr rq)"
    and u: "req_url rq = ''http://h/broken''"
    by (auto simp: example_url)
  have e: "http_client (client ?w) (cells ?w) rq =
      Inr \<lparr>status_code = 502, url = ''http://h/broken'', content = ''Bad Gateway'',
           json = Inl (Raised True ''Expecting value'')\<rparr>"
    using u by (simp add: example_world_def example_client_def example_engine_def)
  from send_raw_returns_content [OF p e] show ?thesis by simp
qed

text \<open>
  Claim C10. With no token, or the empty string for one, the engine gets the headers value
  of the caller's configuration as it is, \<open>None\<close> when there is none, and no dict of the
  store is written to.
\<close>

theorem send_without_token_passes_headers_through:
  assumes "token (auth_store (client w)) = None \<or> token (auth_store (client w)) = Some []"
  shows "\<exists>rq. sent (fst (priv_send w path req_config)) = sent w @ [rq]
            \<and> req_headers rq = dict_get (cells w req_config) ''headers'' PNone
            \<and> cells (fst (priv_send w path req_config)) = cells w"
proof -
  let ?c = "dict_update (dict_of [(''method'', PStr ''GET'')]) (cells w req_config)"
  from assms have "\<not> truthy (token (auth_store (client w)))"
    by (auto simp: truthy_def)
  then have "authorize w ?c = (w, Inr ?c)" by (rule authorize_falsy)
  from prepare_authorized [OF this, of path]
  obtain rq where p: "prepare w path req_config = (w, Inr rq)"
    and h: "req_headers rq = dict_get ?c ''headers'' PNone" by simp
  from priv_send_world [OF p] h show ?thesis
    by (simp add: dict_get_config_headers)
qed

theorem send_without_token_passes_headers_through_witness:
  "(\<exists>rq. sent (fst (priv_send (example_world (Some [])) ''/a'' 10)) = [rq]
      \<and> req_headers rq = PDict 11
      \<and> items (cells (fst (priv_send (example_world (Some [])) ''/a'' 10)) 11) =
          [(''X-Test'', PStr ''1'')])
   \<and> (\<exists>rq. sent (fst (priv_send (example_world None) ''/a'' 13)) = [rq]
      \<and> req_headers rq = PNone)"
  using send_without_token_passes_headers_through [of "example_world (Some [])" "''/a''" 10]
    send_without_token_passes_headers_through [of "example_world None" "''/a''" 13]
  by (auto simp: example_world_def example_client_def example_lookup example_items dict_get_def)

end
